theory Spec2Isabelle
  imports Main
begin

section \<open>JavaScript values\<close>

text \<open>
  The values the access-control component of \<^verbatim>\<open>assets/js/auth.js\<close> handles: what
  \<^verbatim>\<open>JSON.parse\<close> can return, and \<^verbatim>\<open>undefined\<close>. Numbers are the integers the
  component computes with (lengths and millisecond counts). An object is the list of its own
  properties in insertion order.
\<close>

datatype jsval =
    Undefined
  | Null
  | Bool bool
  | Num int
  | Str string
  | Arr "jsval list"
  | Obj "(string \<times> jsval) list"

datatype exn = TypeError | SyntaxError

datatype 'a outcome = Threw exn | Returned 'a

text \<open>Truthiness, as \<^verbatim>\<open>if (x)\<close>, \<^verbatim>\<open>!x\<close> and \<^verbatim>\<open>x || y\<close> test it.\<close>

fun truthy :: "jsval \<Rightarrow> bool" where
  "truthy Undefined = False"
| "truthy Null = False"
| "truthy (Bool b) = b"
| "truthy (Num n) = (n \<noteq> 0)"
| "truthy (Str s) = (s \<noteq> [])"
| "truthy (Arr xs) = True"
| "truthy (Obj kvs) = True"

text \<open>
  Reading a property \<^verbatim>\<open>v.k\<close>. The keys read are those of a session (\<^verbatim>\<open>username\<close>,
  \<^verbatim>\<open>role\<close>, \<^verbatim>\<open>name\<close>, \<^verbatim>\<open>timestamp\<close>, \<^verbatim>\<open>sessionId\<close>) and of a filter
  object; no value of \<^typ>\<open>jsval\<close> inherits a property of one of these names, so a value
  other than an object holding the key reads as \<^verbatim>\<open>undefined\<close>. Reading a property of
  \<^verbatim>\<open>null\<close> or \<^verbatim>\<open>undefined\<close> throws.
\<close>

definition field :: "(string \<times> jsval) list \<Rightarrow> string \<Rightarrow> jsval" where
  "field kvs k = (case map_of kvs k of None \<Rightarrow> Undefined | Some v \<Rightarrow> v)"

fun get :: "jsval \<Rightarrow> string \<Rightarrow> jsval outcome" where
  "get Undefined k = Threw TypeError"
| "get Null k = Threw TypeError"
| "get (Obj kvs) k = Returned (field kvs k)"
| "get v k = Returned Undefined"

text \<open>Optional chaining \<^verbatim>\<open>v?.k\<close>.\<close>

fun get_opt :: "jsval \<Rightarrow> string \<Rightarrow> jsval" where
  "get_opt (Obj kvs) k = field kvs k"
| "get_opt v k = Undefined"

text \<open>\<^verbatim>\<open>a || b\<close>\<close>

definition or_else :: "jsval \<Rightarrow> jsval \<Rightarrow> jsval" where
  "or_else a b = (if truthy a then a else b)"

subsection \<open>Numbers and values as strings\<close>

text \<open>The decimal digits of an integer, as \<^verbatim>\<open>'fw-' + Date.now()\<close> writes them.\<close>

definition digit_char :: "nat \<Rightarrow> char" where
  "digit_char d = ''0123456789'' ! d"

fun show_nat :: "nat \<Rightarrow> string" where
  "show_nat n =
     (if n < 10 then [digit_char n]
      else show_nat (n div 10) @ [digit_char (n mod 10)])"

declare show_nat.simps [simp del]

definition show_int :: "int \<Rightarrow> string" where
  "show_int i = (if i < 0 then CHR ''-'' # show_nat (nat (- i)) else show_nat (nat i))"

fun join :: "string \<Rightarrow> string list \<Rightarrow> string" where
  "join sep [] = []"
| "join sep [s] = s"
| "join sep (s # t # ss) = s @ sep @ join sep (t # ss)"

text \<open>
  The conversion to a string that a property key \<^verbatim>\<open>o[v]\<close>, \<^verbatim>\<open>String(v)\<close> and
  \<^verbatim>\<open>new Date(v)\<close> apply. An array joins its elements with commas, \<^verbatim>\<open>null\<close> and
  \<^verbatim>\<open>undefined\<close> elements as the empty string. A plain object is
  \<^verbatim>\<open>[object Object]\<close> by the inherited \<^verbatim>\<open>toString\<close>; when it has a property
  \<^verbatim>\<open>toString\<close> of its own (which in a value of \<^typ>\<open>jsval\<close> is no function), the
  conversion throws.
\<close>

fun ToString :: "jsval \<Rightarrow> string outcome"
  and ToString_elements :: "jsval list \<Rightarrow> string list outcome" where
  "ToString Undefined = Returned ''undefined''"
| "ToString Null = Returned ''null''"
| "ToString (Bool b) = Returned (if b then ''true'' else ''false'')"
| "ToString (Num n) = Returned (show_int n)"
| "ToString (Str s) = Returned s"
| "ToString (Arr xs) =
     (case ToString_elements xs of
        Threw e \<Rightarrow> Threw e
      | Returned ss \<Rightarrow> Returned (join '','' ss))"
| "ToString (Obj kvs) =
     (if ''toString'' \<in> set (map fst kvs) then Threw TypeError
      else Returned ''[object Object]'')"
| "ToString_elements [] = Returned []"
| "ToString_elements (x # xs) =
     (case (if x = Undefined \<or> x = Null then Returned [] else ToString x) of
        Threw e \<Rightarrow> Threw e
      | Returned s \<Rightarrow>
          (case ToString_elements xs of
             Threw e \<Rightarrow> Threw e
           | Returned ss \<Rightarrow> Returned (s # ss)))"

section \<open>The role registry\<close>

record role =
  name :: string
  permissions :: "string list"
  dashboardAccess :: bool
  defaultSection :: "string option"

text \<open>\<^verbatim>\<open>this.roles\<close>, the object literal of the constructor: its own properties.\<close>

definition roles :: "(string \<times> role) list" where
  "roles =
    [(''guest'',
        \<lparr>name = ''Guest'',
         permissions = [''view:public'', ''read:catalog''],
         dashboardAccess = False, defaultSection = None\<rparr>),
     (''researcher'',
        \<lparr>name = ''Researcher'',
         permissions = [''view:public'', ''read:catalog'', ''download:metadata''],
         dashboardAccess = False, defaultSection = None\<rparr>),
     (''curator'',
        \<lparr>name = ''Curator'',
         permissions =
           [''view:public'', ''read:catalog'', ''write:artifacts'', ''edit:metadata'',
            ''generate:reports'', ''view:dashboard'', ''export:data'',
            ''propose:deaccession''],
         dashboardAccess = True, defaultSection = Some ''overview''\<rparr>),
     (''board'',
        \<lparr>name = ''Board Member'',
         permissions =
           [''view:public'', ''read:catalog'', ''view:dashboard'', ''view:reports'',
            ''approve:deaccession'', ''view:financial'', ''export:reports'',
            ''audit:readonly''],
         dashboardAccess = True, defaultSection = Some ''reports''\<rparr>),
     (''auditor'',
        \<lparr>name = ''External Auditor'',
         permissions =
           [''view:public'', ''read:catalog'', ''view:dashboard'', ''audit:full'',
            ''export:reports'', ''view:compliance''],
         dashboardAccess = True, defaultSection = Some ''compliance''\<rparr>),
     (''admin'',
        \<lparr>name = ''System Administrator'',
         permissions = [''*''],
         dashboardAccess = True, defaultSection = Some ''overview''\<rparr>)]"

text \<open>
  \<^verbatim>\<open>this.roles\<close> is an ordinary object, so \<^verbatim>\<open>this.roles[k]\<close> also finds the members
  every object inherits from \<^verbatim>\<open>Object.prototype\<close>. Each of them is a function or an
  object: truthy, and without a property \<^verbatim>\<open>permissions\<close>.
\<close>

definition Object_prototype :: "string list" where
  "Object_prototype =
    [''constructor'', ''__defineGetter__'', ''__defineSetter__'', ''hasOwnProperty'',
     ''__lookupGetter__'', ''__lookupSetter__'', ''isPrototypeOf'',
     ''propertyIsEnumerable'', ''toString'', ''valueOf'', ''__proto__'',
     ''toLocaleString'']"

datatype 'a member = Absent | Inherited | Own 'a

definition roles_at :: "string \<Rightarrow> role member" where
  "roles_at k =
     (case map_of roles k of
        Some r \<Rightarrow> Own r
      | None \<Rightarrow> if k \<in> set Object_prototype then Inherited else Absent)"

section \<open>The host\<close>

text \<open>
  What the browser supplies to one call of the component: the clock (\<^verbatim>\<open>Date.now()\<close>,
  \<^verbatim>\<open>new Date()\<close>; milliseconds since the epoch, read once per call), the nine characters
  \<^verbatim>\<open>Math.random().toString(36).substr(2, 9)\<close> yields, \<^verbatim>\<open>navigator.userAgent\<close>,
  \<^verbatim>\<open>window.location\<close>, and the two calendar functions: \<^verbatim>\<open>toISOString\<close> of an
  instant and the instant \<^verbatim>\<open>new Date(s)\<close> reads from a string (\<open>None\<close> for an invalid
  date, whose \<^verbatim>\<open>getTime()\<close> is \<^verbatim>\<open>NaN\<close>).
\<close>

record host =
  now :: int
  random_suffix :: string
  navigator_userAgent :: string
  location_pathname :: string
  location_hash :: string
  location_href :: string
  toISOString :: "int \<Rightarrow> string"
  Date_parse :: "string \<Rightarrow> int option"

text \<open>
  \<^verbatim>\<open>new Date(v).getTime()\<close>: \<open>None\<close> is \<^verbatim>\<open>NaN\<close>. A number is an instant when it is
  within the range of time values, \<^verbatim>\<open>null\<close> and booleans convert to numbers, a string is
  parsed, an array or object is converted to a string first.
\<close>

fun Date_getTime :: "host \<Rightarrow> jsval \<Rightarrow> int option outcome" where
  "Date_getTime h Undefined = Returned None"
| "Date_getTime h Null = Returned (Some 0)"
| "Date_getTime h (Bool b) = Returned (Some (if b then 1 else 0))"
| "Date_getTime h (Num n) =
     Returned (if \<bar>n\<bar> \<le> 8640000000000000 then Some n else None)"
| "Date_getTime h (Str s) = Returned (Date_parse h s)"
| "Date_getTime h v =
     (case ToString v of
        Threw e \<Rightarrow> Threw e
      | Returned s \<Rightarrow> Returned (Date_parse h s))"

section \<open>Audit entries, persisted texts and the state\<close>

text \<open>
  An audit entry is the object \<^verbatim>\<open>logAudit\<close> builds. The event is the string literal
  every caller passes; user id and role are whatever the session holds.
\<close>

record entry =
  entry_id :: string
  timestamp :: string
  event :: string
  userId :: jsval
  userRole :: jsval
  userAgent :: string
  ip :: string
  path :: string
  data :: jsval

text \<open>
  A string kept in \<^verbatim>\<open>localStorage\<close> under a key the component parses is represented by
  what \<^verbatim>\<open>JSON.parse\<close> makes of it: a text it rejects (the characters are kept), or the
  value it returns. The text under \<^verbatim>\<open>fw-audit-log\<close>, when it parses, is an array of
  audit entries, of any length.
\<close>

datatype 'a json_text = Unparsable string | Serialized 'a

fun JSON_parse :: "'a json_text \<Rightarrow> 'a outcome" where
  "JSON_parse (Unparsable cs) = Threw SyntaxError"
| "JSON_parse (Serialized v) = Returned v"

text \<open>
  \<^verbatim>\<open>if (item)\<close> on what \<^verbatim>\<open>localStorage.getItem\<close> returned: \<^verbatim>\<open>null\<close> for a missing
  key and the empty string are falsy.
\<close>

fun present :: "'a json_text option \<Rightarrow> bool" where
  "present None = False"
| "present (Some (Unparsable cs)) = (cs \<noteq> [])"
| "present (Some (Serialized v)) = True"

text \<open>
  What \<^verbatim>\<open>JSON.stringify\<close> keeps of a value: a property whose value is
  \<^verbatim>\<open>undefined\<close> is left out, an \<^verbatim>\<open>undefined\<close> array element is written
  \<^verbatim>\<open>null\<close>.
\<close>

fun toJSON :: "jsval \<Rightarrow> jsval"
  and toJSON_elements :: "jsval list \<Rightarrow> jsval list"
  and toJSON_properties :: "(string \<times> jsval) list \<Rightarrow> (string \<times> jsval) list" where
  "toJSON (Arr xs) = Arr (toJSON_elements xs)"
| "toJSON (Obj kvs) = Obj (toJSON_properties kvs)"
| "toJSON v = v"
| "toJSON_elements [] = []"
| "toJSON_elements (x # xs) =
     (if x = Undefined then Null else toJSON x) # toJSON_elements xs"
| "toJSON_properties [] = []"
| "toJSON_properties ((k, v) # kvs) =
     (if v = Undefined then toJSON_properties kvs
      else (k, toJSON v) # toJSON_properties kvs)"

definition entry_toJSON :: "entry \<Rightarrow> entry" where
  "entry_toJSON e =
     e\<lparr>userId := toJSON (userId e), userRole := toJSON (userRole e), data := toJSON (data e)\<rparr>"

definition JSON_stringify :: "jsval \<Rightarrow> jsval json_text" where
  "JSON_stringify v = Serialized (toJSON v)"

definition JSON_stringify_entries :: "entry list \<Rightarrow> entry list json_text" where
  "JSON_stringify_entries es = Serialized (map entry_toJSON es)"

text \<open>
  The four items of \<^verbatim>\<open>localStorage\<close> the component uses: \<^verbatim>\<open>fw-auth\<close>,
  \<^verbatim>\<open>fw-audit-log\<close>, \<^verbatim>\<open>fw-auth-redirect\<close> and \<^verbatim>\<open>fw-auth-message\<close>; \<open>None\<close> is a
  missing key. Writing an item succeeds.
\<close>

record storage =
  fw_auth :: "jsval json_text option"
  fw_audit_log :: "entry list json_text option"
  fw_auth_redirect :: "string option"
  fw_auth_message :: "string option"

text \<open>
  The state of the \<^verbatim>\<open>AuthManager\<close> object and of the page around it. Arrays of entries
  are mutable and shared by reference, so they live in a store: \<open>auditLog\<close> is the
  reference \<^verbatim>\<open>this.auditLog\<close> holds, \<open>arrays\<close> the contents of every array, and
  \<open>next_ref\<close> the next unused reference. \<open>navigation\<close> is the last assignment to
  \<^verbatim>\<open>window.location.href\<close>.
\<close>

record state =
  currentUser :: jsval
  auditLog :: nat
  arrays :: "nat \<Rightarrow> entry list"
  next_ref :: nat
  localStorage :: storage
  navigation :: "string option"

definition new_array :: "entry list \<Rightarrow> state \<Rightarrow> nat \<times> state" where
  "new_array es s =
     (next_ref s, s\<lparr>arrays := (arrays s)(next_ref s := es), next_ref := Suc (next_ref s)\<rparr>)"

text \<open>\<^verbatim>\<open>a.push(e)\<close> changes the array in place.\<close>

definition push :: "nat \<Rightarrow> entry \<Rightarrow> state \<Rightarrow> state" where
  "push r e s = s\<lparr>arrays := (arrays s)(r := arrays s r @ [e])\<rparr>"

text \<open>\<^verbatim>\<open>a.slice(-n)\<close>: the last \<open>n\<close> elements, all of them when there are fewer.\<close>

definition slice_last :: "nat \<Rightarrow> 'a list \<Rightarrow> 'a list" where
  "slice_last n xs = drop (length xs - n) xs"

section \<open>Permissions\<close>

text \<open>\<^verbatim>\<open>const [category] = permission.split(':')\<close>: the text before the first colon.\<close>

definition category_of :: "string \<Rightarrow> string" where
  "category_of permission = takeWhile (\<lambda>c. c \<noteq> CHR '':'') permission"

definition hasPermission :: "string \<Rightarrow> state \<Rightarrow> bool outcome" where
  "hasPermission permission s =
     (if \<not> truthy (currentUser s) then Returned False
      else
        (case get (currentUser s) ''role'' of
           Threw e \<Rightarrow> Threw e
         | Returned r \<Rightarrow>
             (case ToString r of
                Threw e \<Rightarrow> Threw e
              | Returned k \<Rightarrow>
                  (case roles_at k of
                     Absent \<Rightarrow> Returned False
                   | Inherited \<Rightarrow> Threw TypeError
                   | Own role \<Rightarrow>
                       if ''*'' \<in> set (permissions role) then Returned True
                       else if permission \<in> set (permissions role) then Returned True
                       else if category_of permission \<noteq> []
                       then Returned (category_of permission @ '':*'' \<in> set (permissions role))
                       else Returned False))))"

section \<open>The audit log\<close>

definition logAudit :: "host \<Rightarrow> string \<Rightarrow> jsval \<Rightarrow> state \<Rightarrow> entry \<times> state" where
  "logAudit h ev payload s =
     (let auditEntry =
            \<lparr>entry_id = ''audit-'' @ show_int (now h) @ ''-'' @ random_suffix h,
             timestamp = toISOString h (now h),
             event = ev,
             userId = or_else (get_opt (currentUser s) ''username'') (Str ''anonymous''),
             userRole = or_else (get_opt (currentUser s) ''role'') (Str ''guest''),
             userAgent = navigator_userAgent h,
             ip = ''127.0.0.1'',
             path = location_pathname h @ location_hash h,
             data = (if payload = Undefined then Obj [] else payload)\<rparr>;
          s1 = push (auditLog s) auditEntry s;
          s2 = (if length (arrays s1 (auditLog s1)) > 1000
                then (let (r, s') = new_array (slice_last 1000 (arrays s1 (auditLog s1))) s1
                      in s'\<lparr>auditLog := r\<rparr>)
                else s1);
          s3 = s2\<lparr>localStorage := (localStorage s2)
                  \<lparr>fw_audit_log := Some (JSON_stringify_entries (arrays s2 (auditLog s2)))\<rparr>\<rparr>
      in (auditEntry, s3))"

text \<open>
  \<^verbatim>\<open>===\<close>: primitive values are compared by value. An array or an object is equal to
  itself only, and a filter value is never one of the objects of the log.
\<close>

fun strict_equal :: "jsval \<Rightarrow> jsval \<Rightarrow> bool" where
  "strict_equal (Arr xs) b = False"
| "strict_equal (Obj kvs) b = False"
| "strict_equal a b = (a = b)"

text \<open>\<^verbatim>\<open>>=\<close> and \<^verbatim>\<open><=\<close> on two dates: false when either is invalid.\<close>

fun date_ge :: "int option \<Rightarrow> int option \<Rightarrow> bool" where
  "date_ge (Some a) (Some b) = (a \<ge> b)"
| "date_ge a b = False"

fun date_le :: "int option \<Rightarrow> int option \<Rightarrow> bool" where
  "date_le (Some a) (Some b) = (a \<le> b)"
| "date_le a b = False"

text \<open>
  The comparison function \<^verbatim>\<open>(a, b) => new Date(b.timestamp) - new Date(a.timestamp)\<close>.
  With an invalid date the difference is \<^verbatim>\<open>NaN\<close>, which \<^verbatim>\<open>sort\<close> takes as 0.
\<close>

fun date_minus :: "int option \<Rightarrow> int option \<Rightarrow> int" where
  "date_minus (Some a) (Some b) = a - b"
| "date_minus a b = 0"

definition newest_first :: "host \<Rightarrow> entry \<Rightarrow> entry \<Rightarrow> int" where
  "newest_first h a b = date_minus (Date_parse h (timestamp b)) (Date_parse h (timestamp a))"

text \<open>
  \<^verbatim>\<open>Array.prototype.sort\<close> is stable: an element moves behind a later one only when the
  comparison of the two is positive.
\<close>

fun insert_by :: "('a \<Rightarrow> 'a \<Rightarrow> int) \<Rightarrow> 'a \<Rightarrow> 'a list \<Rightarrow> 'a list" where
  "insert_by cmp x [] = [x]"
| "insert_by cmp x (y # ys) = (if cmp x y > 0 then y # insert_by cmp x ys else x # y # ys)"

definition sort_by :: "('a \<Rightarrow> 'a \<Rightarrow> int) \<Rightarrow> 'a list \<Rightarrow> 'a list" where
  "sort_by cmp xs = foldr (insert_by cmp) xs []"

text \<open>\<^verbatim>\<open>logs = logs.filter(f)\<close>: a new array; the old one is left as it is.\<close>

definition filter_logs :: "(entry \<Rightarrow> bool) \<Rightarrow> nat \<times> state \<Rightarrow> nat \<times> state" where
  "filter_logs f ls = new_array (filter f (arrays (snd ls) (fst ls))) (snd ls)"

text \<open>\<^verbatim>\<open>logs.sort(cmp)\<close> sorts the array in place.\<close>

definition sort_in_place :: "(entry \<Rightarrow> entry \<Rightarrow> int) \<Rightarrow> nat \<Rightarrow> state \<Rightarrow> state" where
  "sort_in_place cmp r s = s\<lparr>arrays := (arrays s)(r := sort_by cmp (arrays s r))\<rparr>"

text \<open>
  The four filters of \<^verbatim>\<open>getAuditLog\<close>, one for each line
  \<^verbatim>\<open>if (filters.x) logs = logs.filter(...)\<close>. The filters are the own properties of the
  object passed; \<open>ls\<close> is the array \<^verbatim>\<open>logs\<close> refers to and the state. Converting a
  date filter can throw.
\<close>

definition by_userId :: "(string \<times> jsval) list \<Rightarrow> nat \<times> state \<Rightarrow> nat \<times> state" where
  "by_userId filters ls =
     (if truthy (field filters ''userId'')
      then filter_logs (\<lambda>log. strict_equal (userId log) (field filters ''userId'')) ls
      else ls)"

definition by_event :: "(string \<times> jsval) list \<Rightarrow> nat \<times> state \<Rightarrow> nat \<times> state" where
  "by_event filters ls =
     (if truthy (field filters ''event'')
      then filter_logs (\<lambda>log. strict_equal (Str (event log)) (field filters ''event'')) ls
      else ls)"

definition by_startDate ::
  "host \<Rightarrow> (string \<times> jsval) list \<Rightarrow> nat \<times> state \<Rightarrow> (nat \<times> state) outcome" where
  "by_startDate h filters ls =
     (if truthy (field filters ''startDate'')
      then (case Date_getTime h (field filters ''startDate'') of
              Threw e \<Rightarrow> Threw e
            | Returned start \<Rightarrow>
                Returned (filter_logs (\<lambda>log. date_ge (Date_parse h (timestamp log)) start) ls))
      else Returned ls)"

definition by_endDate ::
  "host \<Rightarrow> (string \<times> jsval) list \<Rightarrow> nat \<times> state \<Rightarrow> (nat \<times> state) outcome" where
  "by_endDate h filters ls =
     (if truthy (field filters ''endDate'')
      then (case Date_getTime h (field filters ''endDate'') of
              Threw e \<Rightarrow> Threw e
            | Returned end_date \<Rightarrow>
                Returned (filter_logs (\<lambda>log. date_le (Date_parse h (timestamp log)) end_date) ls))
      else Returned ls)"

text \<open>
  \<^verbatim>\<open>getAuditLog(filters)\<close> starts from a copy of the log, \<^verbatim>\<open>[...this.auditLog]\<close>,
  and returns the reference of the array it built and sorted.
\<close>

definition getAuditLog :: "host \<Rightarrow> (string \<times> jsval) list \<Rightarrow> state \<Rightarrow> nat outcome \<times> state" where
  "getAuditLog h filters s =
     (let ls0 = new_array (arrays s (auditLog s)) s;
          ls1 = by_userId filters ls0;
          ls2 = by_event filters ls1
      in
        (case by_startDate h filters ls2 of
           Threw e \<Rightarrow> (Threw e, snd ls2)
         | Returned ls3 \<Rightarrow>
             (case by_endDate h filters ls3 of
                Threw e \<Rightarrow> (Threw e, snd ls3)
              | Returned ls4 \<Rightarrow>
                  (Returned (fst ls4), sort_in_place (newest_first h) (fst ls4) (snd ls4)))))"

subsection \<open>Export\<close>

definition dquote :: char where
  "dquote = CHR 0x22"

definition backslash :: char where
  "backslash = CHR 0x5C"

definition hex_digit :: "nat \<Rightarrow> char" where
  "hex_digit d = ''0123456789abcdef'' ! d"

text \<open>The characters \<^verbatim>\<open>JSON.stringify\<close> writes for one character of a string.\<close>

definition JSON_escape :: "char \<Rightarrow> string" where
  "JSON_escape c =
     (if c = dquote then [backslash, dquote]
      else if c = backslash then [backslash, backslash]
      else if c = CHR 0x08 then [backslash, CHR ''b'']
      else if c = CHR 0x09 then [backslash, CHR ''t'']
      else if c = CHR 0x0A then [backslash, CHR ''n'']
      else if c = CHR 0x0C then [backslash, CHR ''f'']
      else if c = CHR 0x0D then [backslash, CHR ''r'']
      else if (of_char c :: nat) < 32
      then [backslash, CHR ''u'', CHR ''0'', CHR ''0'',
            hex_digit (of_char c div 16), hex_digit (of_char c mod 16)]
      else [c])"

definition JSON_quote :: "string \<Rightarrow> string" where
  "JSON_quote cs = dquote # concat (map JSON_escape cs) @ [dquote]"

text \<open>
  The characters of \<^verbatim>\<open>String(JSON.stringify(v))\<close>, without indentation:
  \<^verbatim>\<open>JSON.stringify(undefined)\<close> is \<^verbatim>\<open>undefined\<close>, inside an array \<^verbatim>\<open>undefined\<close>
  is written \<^verbatim>\<open>null\<close>, and a property holding it is left out.
\<close>

fun JSON_chars :: "jsval \<Rightarrow> string"
  and JSON_elements :: "jsval list \<Rightarrow> string list"
  and JSON_members :: "(string \<times> jsval) list \<Rightarrow> string list" where
  "JSON_chars Undefined = ''undefined''"
| "JSON_chars Null = ''null''"
| "JSON_chars (Bool b) = (if b then ''true'' else ''false'')"
| "JSON_chars (Num n) = show_int n"
| "JSON_chars (Str cs) = JSON_quote cs"
| "JSON_chars (Arr xs) = ''['' @ join '','' (JSON_elements xs) @ '']''"
| "JSON_chars (Obj kvs) = ''{'' @ join '','' (JSON_members kvs) @ ''}''"
| "JSON_elements [] = []"
| "JSON_elements (x # xs) =
     (if x = Undefined then ''null'' else JSON_chars x) # JSON_elements xs"
| "JSON_members [] = []"
| "JSON_members ((k, v) # kvs) =
     (if v = Undefined then JSON_members kvs
      else (JSON_quote k @ '':'' @ JSON_chars v) # JSON_members kvs)"

text \<open>One cell of the CSV: \<^verbatim>\<open>`"${String(cell).replace(/"/g, '""')}"`\<close>.\<close>

definition csv_cell :: "string \<Rightarrow> string" where
  "csv_cell cs = dquote # concat (map (\<lambda>c. if c = dquote then [dquote, dquote] else [c]) cs) @ [dquote]"

definition csv_headers :: "string list" where
  "csv_headers = [''Timestamp'', ''Event'', ''User ID'', ''User Role'', ''Path'', ''Data'']"

text \<open>The cells of the row of one entry, each as \<^verbatim>\<open>String(cell)\<close> makes it.\<close>

definition csv_row :: "entry \<Rightarrow> string list outcome" where
  "csv_row log =
     (case ToString (userId log) of
        Threw e \<Rightarrow> Threw e
      | Returned uid \<Rightarrow>
          (case ToString (userRole log) of
             Threw e \<Rightarrow> Threw e
           | Returned urole \<Rightarrow>
               Returned [timestamp log, event log, uid, urole, path log, JSON_chars (data log)]))"

fun csv_rows :: "entry list \<Rightarrow> string list list outcome" where
  "csv_rows [] = Returned []"
| "csv_rows (log # logs) =
     (case csv_row log of
        Threw e \<Rightarrow> Threw e
      | Returned row \<Rightarrow>
          (case csv_rows logs of
             Threw e \<Rightarrow> Threw e
           | Returned rows \<Rightarrow> Returned (row # rows)))"

definition csv_text :: "string list list \<Rightarrow> string" where
  "csv_text rows = join [CHR 0x0A] (map (\<lambda>row. join '','' (map csv_cell row)) rows)"

text \<open>
  What \<^verbatim>\<open>downloadFile\<close> is given: the blob and the file name. The JSON blob is a text,
  represented as the persisted texts are.
\<close>

datatype blob = Blob_json "entry list json_text" | Blob_csv string

definition exportAuditLog ::
  "host \<Rightarrow> string \<Rightarrow> state \<Rightarrow> (blob \<times> string) option outcome \<times> state" where
  "exportAuditLog h format s =
     (case getAuditLog h [] s of
        (Threw e, s1) \<Rightarrow> (Threw e, s1)
      | (Returned logs, s1) \<Rightarrow>
          (let day = takeWhile (\<lambda>c. c \<noteq> CHR ''T'') (toISOString h (now h)) in
             (case (if format = ''json''
                    then Returned (Some (Blob_json (JSON_stringify_entries (arrays s1 logs)),
                                         ''audit-log-'' @ day @ ''.json''))
                    else if format = ''csv''
                    then (case csv_rows (arrays s1 logs) of
                            Threw e \<Rightarrow> Threw e
                          | Returned rows \<Rightarrow>
                              Returned (Some (Blob_csv (csv_text (csv_headers # rows)),
                                              ''audit-log-'' @ day @ ''.csv'')))
                    else Returned None) of
                Threw e \<Rightarrow> (Threw e, s1)
              | Returned file \<Rightarrow>
                  (Returned file,
                   snd (logAudit h ''audit_log_exported''
                          (Obj [(''format'', Str format),
                                (''entryCount'', Num (int (length (arrays s1 logs))))]) s1)))))"

section \<open>Sessions\<close>

text \<open>
  \<^verbatim>\<open>setSession({ username, role, name, twoFactor = false })\<close>: the four properties of
  the argument, \<^verbatim>\<open>undefined\<close> for one that is missing.
\<close>

definition setSession :: "host \<Rightarrow> jsval \<Rightarrow> jsval \<Rightarrow> jsval \<Rightarrow> jsval \<Rightarrow> state \<Rightarrow> state" where
  "setSession h username role_arg name_arg twoFactor_arg s =
     (let twoFactor = (if twoFactor_arg = Undefined then Bool False else twoFactor_arg);
          session =
            Obj [(''username'', username),
                 (''role'', role_arg),
                 (''name'', name_arg),
                 (''timestamp'', Str (toISOString h (now h))),
                 (''sessionId'', Str (''fw-'' @ show_int (now h))),
                 (''twoFactor'', twoFactor)];
          s1 = s\<lparr>localStorage := (localStorage s)\<lparr>fw_auth := Some (JSON_stringify session)\<rparr>\<rparr>;
          s2 = s1\<lparr>currentUser := session\<rparr>
      in snd (logAudit h ''session_created''
                (Obj [(''userId'', username), (''role'', role_arg), (''twoFactor'', twoFactor)]) s2))"

definition clearSession :: "state \<Rightarrow> state" where
  "clearSession s =
     s\<lparr>localStorage := (localStorage s)\<lparr>fw_auth := None\<rparr>, currentUser := Null\<rparr>"

definition redirectToLogin :: "host \<Rightarrow> string \<Rightarrow> state \<Rightarrow> state" where
  "redirectToLogin h message s =
     s\<lparr>localStorage := (localStorage s)
          \<lparr>fw_auth_redirect := Some (location_href h), fw_auth_message := Some message\<rparr>,
       navigation := Some ''login.html''\<rparr>"

definition logout :: "host \<Rightarrow> string \<Rightarrow> state \<Rightarrow> state" where
  "logout h reason s =
     redirectToLogin h ''Please log in to continue''
       (clearSession (snd (logAudit h ''user_logout'' (Obj [(''reason'', Str reason)]) s)))"

text \<open>
  \<^verbatim>\<open>loadSession\<close>: every exception raised inside its \<^verbatim>\<open>try\<close> block ends in
  \<^verbatim>\<open>clearSession\<close>, with the state as the block left it.
\<close>

definition loadSession :: "host \<Rightarrow> state \<Rightarrow> state" where
  "loadSession h s =
     (let sessionData = fw_auth (localStorage s) in
        if \<not> present sessionData then s
        else
          (case JSON_parse (the sessionData) of
             Threw e \<Rightarrow> clearSession s
           | Returned v \<Rightarrow>
               (let s1 = s\<lparr>currentUser := v\<rparr> in
                  (case get (currentUser s1) ''username'' of
                     Threw e \<Rightarrow> clearSession s1
                   | Returned u \<Rightarrow>
                       (case get (currentUser s1) ''role'' of
                          Threw e \<Rightarrow> clearSession s1
                        | Returned r \<Rightarrow>
                            (let s2 = snd (logAudit h ''session_loaded''
                                             (Obj [(''userId'', u), (''role'', r)]) s1)
                             in
                               (case get (currentUser s2) ''timestamp'' of
                                  Threw e \<Rightarrow> clearSession s2
                                | Returned ts \<Rightarrow>
                                    (case Date_getTime h ts of
                                       Threw e \<Rightarrow> clearSession s2
                                     | Returned None \<Rightarrow> s2
                                     | Returned (Some t) \<Rightarrow>
                                         if now h - t > 24 * 60 * 60 * 1000
                                         then logout h ''Session expired'' s2
                                         else s2))))))))"


section \<open>Construction\<close>

definition endsWith :: "string \<Rightarrow> string \<Rightarrow> bool" where
  "endsWith cs suffix_cs =
     (length suffix_cs \<le> length cs \<and> drop (length cs - length suffix_cs) cs = suffix_cs)"

definition includes_str :: "string \<Rightarrow> string \<Rightarrow> bool" where
  "includes_str cs part = list_ex (\<lambda>i. take (length part) (drop i cs) = part) [0..<Suc (length cs)]"

text \<open>\<^verbatim>\<open>!userRole || !userRole.dashboardAccess\<close> for what \<^verbatim>\<open>this.roles[k]\<close> found.\<close>

fun no_dashboardAccess :: "role member \<Rightarrow> bool" where
  "no_dashboardAccess Absent = True"
| "no_dashboardAccess Inherited = True"
| "no_dashboardAccess (Own r) = (\<not> dashboardAccess r)"

text \<open>
  The second block of \<^verbatim>\<open>protectRoutes\<close>, for the audit page. It is reached when the
  first block, for the dashboard, has not returned.
\<close>

definition protect_audit :: "host \<Rightarrow> state \<Rightarrow> unit outcome \<times> state" where
  "protect_audit h s =
     (if endsWith (location_pathname h) ''audit.html''
      then (if \<not> truthy (currentUser s)
            then (Returned (), redirectToLogin h ''Audit access requires elevated permissions'' s)
            else (case hasPermission ''audit:full'' s of
                    Threw e \<Rightarrow> (Threw e, s)
                  | Returned False \<Rightarrow>
                      (Returned (),
                       redirectToLogin h ''Audit access requires elevated permissions'' s)
                  | Returned True \<Rightarrow> (Returned (), s)))
      else (Returned (), s))"

definition protectRoutes :: "host \<Rightarrow> state \<Rightarrow> unit outcome \<times> state" where
  "protectRoutes h s =
     (let path = location_pathname h in
        if endsWith path ''dashboard.html'' \<or> includes_str path ''dashboard/''
        then
          (if \<not> truthy (currentUser s)
           then (Returned (), redirectToLogin h ''Please log in to access the dashboard'' s)
           else
             (case hasPermission ''view:dashboard'' s of
                Threw e \<Rightarrow> (Threw e, s)
              | Returned False \<Rightarrow>
                  (Returned (), redirectToLogin h ''Please log in to access the dashboard'' s)
              | Returned True \<Rightarrow>
                  (case get (currentUser s) ''role'' of
                     Threw e \<Rightarrow> (Threw e, s)
                   | Returned r \<Rightarrow>
                       (case ToString r of
                          Threw e \<Rightarrow> (Threw e, s)
                        | Returned k \<Rightarrow>
                            if no_dashboardAccess (roles_at k)
                            then (Returned (),
                                  redirectToLogin h
                                    ''Insufficient permissions for dashboard access'' s)
                            else protect_audit h s))))
        else protect_audit h s)"

definition loadStoredAuditLog :: "storage \<Rightarrow> entry list" where
  "loadStoredAuditLog st =
     (let stored = fw_audit_log st in
        if present stored
        then (case JSON_parse (the stored) of
                Returned es \<Rightarrow> es
              | Threw e \<Rightarrow> [])
        else [])"

text \<open>
  \<^verbatim>\<open>new AuthManager()\<close> on a page whose \<^verbatim>\<open>localStorage\<close> is \<open>st\<close>: the fields are
  set, then \<^verbatim>\<open>init\<close> runs \<^verbatim>\<open>loadSession\<close> and \<^verbatim>\<open>protectRoutes\<close>. The two calls
  that follow, \<^verbatim>\<open>setupUI\<close> and \<^verbatim>\<open>startSessionTimer\<close>, write to the document and set a
  timer; they change no field of the state.
\<close>

definition constructor :: "host \<Rightarrow> storage \<Rightarrow> unit outcome \<times> state" where
  "constructor h st =
     (let s0 = \<lparr>currentUser = Null,
                auditLog = 0,
                arrays = (\<lambda>r. [])(0 := loadStoredAuditLog st),
                next_ref = 1,
                localStorage = st,
                navigation = None\<rparr>
      in protectRoutes h (loadSession h s0))"

section \<open>Notions the properties are stated with\<close>

text \<open>The contents of the audit log: the array \<^verbatim>\<open>this.auditLog\<close> refers to.\<close>

definition entries :: "state \<Rightarrow> entry list" where
  "entries s = arrays s (auditLog s)"

text \<open>
  The reference \<^verbatim>\<open>this.auditLog\<close> holds is one that was handed out: a new array never
  takes its place in the store.
\<close>

definition allocated :: "state \<Rightarrow> bool" where
  "allocated s = (auditLog s < next_ref s)"

text \<open>
  The grant rule in the words of the specification: a role grants a permission when its
  permission set contains \<^verbatim>\<open>*\<close>, the permission itself, or the wildcard of the
  permission's category.
\<close>

definition grants :: "role \<Rightarrow> string \<Rightarrow> bool" where
  "grants r permission =
     (''*'' \<in> set (permissions r) \<or> permission \<in> set (permissions r) \<or>
      category_of permission @ '':*'' \<in> set (permissions r))"

text \<open>
  A sequence of \<^verbatim>\<open>logAudit\<close> calls, each with its host, event and payload: the entries
  the calls returned, in order, and the state after the last.
\<close>

fun logAudit_all :: "(host \<times> string \<times> jsval) list \<Rightarrow> state \<Rightarrow> entry list \<times> state" where
  "logAudit_all [] s = ([], s)"
| "logAudit_all ((h, ev, d) # calls) s =
     (let (e, s1) = logAudit h ev d s;
          (es, s2) = logAudit_all calls s1
      in (e # es, s2))"

subsection \<open>A host and a page to evaluate on\<close>

text \<open>
  The calendar of a host, for instants of the years 0000 to 9999:
  \<^verbatim>\<open>toISOString\<close> writes \<^verbatim>\<open>YYYY-MM-DDTHH:mm:ss.sssZ\<close>, and a string of that form
  is read back. Any other string is taken as an invalid date.
\<close>

definition pad :: "nat \<Rightarrow> nat \<Rightarrow> string" where
  "pad w k = replicate (w - length (show_nat k)) CHR ''0'' @ show_nat k"

definition iso_string :: "int \<Rightarrow> string" where
  "iso_string t =
     (let days = t div 86400000;
          ms = nat (t mod 86400000);
          z = days + 719468;
          era = z div 146097;
          doe = z mod 146097;
          yoe = (doe - doe div 1460 + doe div 36524 - doe div 146096) div 365;
          doy = doe - (365 * yoe + yoe div 4 - yoe div 100);
          mp = (5 * doy + 2) div 153;
          d = doy - (153 * mp + 2) div 5 + 1;
          m = (if mp < 10 then mp + 3 else mp - 9);
          y = yoe + era * 400 + (if m \<le> 2 then 1 else 0)
      in pad 4 (nat y) @ ''-'' @ pad 2 (nat m) @ ''-'' @ pad 2 (nat d) @ ''T'' @
         pad 2 (ms div 3600000) @ '':'' @ pad 2 (ms div 60000 mod 60) @ '':'' @
         pad 2 (ms div 1000 mod 60) @ ''.'' @ pad 3 (ms mod 1000) @ ''Z'')"

definition digit_value :: "char \<Rightarrow> nat option" where
  "digit_value c = map_of (zip ''0123456789'' [0, 1, 2, 3, 4, 5, 6, 7, 8, 9]) c"

fun read_digits :: "nat \<Rightarrow> string \<Rightarrow> nat option" where
  "read_digits acc [] = Some acc"
| "read_digits acc (c # cs) =
     (case digit_value c of None \<Rightarrow> None | Some d \<Rightarrow> read_digits (10 * acc + d) cs)"

definition days_from_civil :: "int \<Rightarrow> int \<Rightarrow> int \<Rightarrow> int" where
  "days_from_civil y m d =
     (let y' = (if m \<le> 2 then y - 1 else y);
          era = y' div 400;
          yoe = y' mod 400;
          doy = (153 * (if m > 2 then m - 3 else m + 9) + 2) div 5 + d - 1;
          doe = yoe * 365 + yoe div 4 - yoe div 100 + doy
      in era * 146097 + doe - 719468)"

definition iso_time :: "string \<Rightarrow> int option" where
  "iso_time cs =
     (if length cs = 24 \<and> cs ! 4 = CHR ''-'' \<and> cs ! 7 = CHR ''-'' \<and> cs ! 10 = CHR ''T'' \<and>
         cs ! 13 = CHR '':'' \<and> cs ! 16 = CHR '':'' \<and> cs ! 19 = CHR ''.'' \<and> cs ! 23 = CHR ''Z''
      then
        (case (read_digits 0 (take 4 cs), read_digits 0 (take 2 (drop 5 cs)),
               read_digits 0 (take 2 (drop 8 cs)), read_digits 0 (take 2 (drop 11 cs)),
               read_digits 0 (take 2 (drop 14 cs)), read_digits 0 (take 2 (drop 17 cs)),
               read_digits 0 (take 3 (drop 20 cs))) of
           (Some y, Some m, Some d, Some hh, Some mm, Some ss, Some ms) \<Rightarrow>
             if 1 \<le> m \<and> m \<le> 12 \<and> 1 \<le> d \<and> d \<le> 31 \<and> hh \<le> 23 \<and> mm \<le> 59 \<and> ss \<le> 59
             then Some (days_from_civil (int y) (int m) (int d) * 86400000 +
                        int (hh * 3600000 + mm * 60000 + ss * 1000 + ms))
             else None
         | _ \<Rightarrow> None)
      else None)"

text \<open>A browser on the page \<^verbatim>\<open>/index.html\<close> whose clock reads \<open>t\<close>.\<close>

definition browser :: "int \<Rightarrow> host" where
  "browser t =
     \<lparr>now = t,
      random_suffix = ''k3x9q0a7m'',
      navigator_userAgent = ''Mozilla/5.0'',
      location_pathname = ''/index.html'',
      location_hash = [],
      location_href = ''https://museum.example/index.html'',
      toISOString = iso_string,
      Date_parse = iso_time\<rparr>"

definition empty_storage :: storage where
  "empty_storage =
     \<lparr>fw_auth = None, fw_audit_log = None, fw_auth_redirect = None, fw_auth_message = None\<rparr>"

text \<open>The state of a fresh \<^verbatim>\<open>AuthManager\<close> on a page with nothing persisted.\<close>

definition fresh :: state where
  "fresh =
     \<lparr>currentUser = Null, auditLog = 0, arrays = (\<lambda>r. []), next_ref = 1,
      localStorage = empty_storage, navigation = None\<rparr>"

text \<open>
  1001 calls of \<^verbatim>\<open>logAudit\<close>, the clock reading 0 to 1000 and each payload the number
  of its call.
\<close>

definition thousand_and_one :: "(host \<times> string \<times> jsval) list" where
  "thousand_and_one = map (\<lambda>i. (browser (int i), ''api_request'', Num (int i))) [0..<1001]"






text \<open>
  \<open>s'\<close> differs from \<open>s\<close> by new arrays only: every array of \<open>s\<close> has its contents,
  and the fields of the \<^verbatim>\<open>AuthManager\<close> and the page are the same.
\<close>

definition extends :: "state \<Rightarrow> state \<Rightarrow> bool" where
  "extends s s' =
     (next_ref s \<le> next_ref s' \<and> (\<forall>r < next_ref s. arrays s' r = arrays s r) \<and>
      auditLog s' = auditLog s \<and> currentUser s' = currentUser s \<and>
      localStorage s' = localStorage s \<and> navigation s' = navigation s)"

text \<open>\<open>ls\<close> is an array made since \<open>s\<close>, with the state it was made in.\<close>

definition fresh_array :: "state \<Rightarrow> nat \<times> state \<Rightarrow> bool" where
  "fresh_array s ls = (extends s (snd ls) \<and> next_ref s \<le> fst ls \<and> fst ls < next_ref (snd ls))"




text \<open>
  The operations of the component on its state, and a run of them, each with the host it is
  called in.
\<close>

datatype operation =
    LogAudit string jsval
  | GetAuditLog "(string \<times> jsval) list"
  | ExportAuditLog string
  | SetSession jsval jsval jsval jsval
  | LoadSession
  | Logout string
  | ClearSession

fun perform :: "host \<Rightarrow> operation \<Rightarrow> state \<Rightarrow> state" where
  "perform h (LogAudit ev d) s = snd (logAudit h ev d s)"
| "perform h (GetAuditLog filters) s = snd (getAuditLog h filters s)"
| "perform h (ExportAuditLog format) s = snd (exportAuditLog h format s)"
| "perform h (SetSession username role_arg name_arg twoFactor_arg) s =
     setSession h username role_arg name_arg twoFactor_arg s"
| "perform h LoadSession s = loadSession h s"
| "perform h (Logout reason) s = logout h reason s"
| "perform h ClearSession s = clearSession s"

fun perform_all :: "(host \<times> operation) list \<Rightarrow> state \<Rightarrow> state" where
  "perform_all [] s = s"
| "perform_all ((h, op) # ops) s = perform_all ops (perform h op s)"

text \<open>
  \<open>s'\<close> has the log of \<open>s\<close> with the entries \<open>es\<close> appended and the result cut to
  its newest 1000; with nothing appended the log is as it was.
\<close>

definition appends :: "state \<Rightarrow> entry list \<Rightarrow> state \<Rightarrow> bool" where
  "appends s es s' =
     (entries s' = (if es = [] then entries s else slice_last 1000 (entries s @ es)))"

text \<open>The state the constructor sets up before \<^verbatim>\<open>init\<close> runs.\<close>

definition initial :: "storage \<Rightarrow> state" where
  "initial st =
     \<lparr>currentUser = Null, auditLog = 0, arrays = (\<lambda>r. [])(0 := loadStoredAuditLog st),
      next_ref = 1, localStorage = st, navigation = None\<rparr>"

text \<open>
  A \<^verbatim>\<open>localStorage\<close> whose persisted log holds 1001 entries, and the operations of one
  visit.
\<close>

definition long_storage :: storage where
  "long_storage =
     empty_storage\<lparr>fw_audit_log := Some (Serialized (fst (logAudit_all thousand_and_one fresh)))\<rparr>"

definition a_visit :: "(host \<times> operation) list" where
  "a_visit =
     [(browser 1767225600000, SetSession (Str ''alice'') (Str ''curator'') (Str ''Alice'') Undefined),
      (browser 1767225660000, GetAuditLog [(''event'', Str ''session_created'')]),
      (browser 1767225720000, ExportAuditLog ''csv''),
      (browser 1767225780000, Logout ''User initiated logout'')]"





text \<open>
  The numbers of a value are safe integers (\<^verbatim>\<open>Number.isSafeInteger\<close>): the integers a
  JavaScript number holds exactly, which \<^verbatim>\<open>String\<close> and \<^verbatim>\<open>JSON.stringify\<close> write with
  all their decimal digits, as \<^term>\<open>show_int\<close> does.
\<close>

fun safe_integers :: "jsval \<Rightarrow> bool"
  and safe_integers_elements :: "jsval list \<Rightarrow> bool"
  and safe_integers_properties :: "(string \<times> jsval) list \<Rightarrow> bool" where
  "safe_integers (Num n) = (- 9007199254740991 \<le> n \<and> n \<le> 9007199254740991)"
| "safe_integers (Arr xs) = safe_integers_elements xs"
| "safe_integers (Obj kvs) = safe_integers_properties kvs"
| "safe_integers v = True"
| "safe_integers_elements [] = True"
| "safe_integers_elements (x # xs) = (safe_integers x \<and> safe_integers_elements xs)"
| "safe_integers_properties [] = True"
| "safe_integers_properties ((k, v) # kvs) = (safe_integers v \<and> safe_integers_properties kvs)"












section \<open>Properties of the permission check\<close>

lemma registered_roles:
  "map_of roles R = Some r \<Longrightarrow>
   R \<in> {''guest'', ''researcher'', ''curator'', ''board'', ''auditor'', ''admin''}"
  by (auto simp: roles_def split: if_splits)

lemma no_empty_category_wildcard:
  "map_of roles R = Some r \<Longrightarrow> '':*'' \<notin> set (permissions r)"
  by (auto simp: roles_def split: if_splits)

text \<open>
  Under a session whose role names a registered role, \<^verbatim>\<open>hasPermission\<close> returns what
  the grant rule says.
\<close>

lemma hasPermission_registered:
  assumes "truthy (currentUser s)"
    and "get (currentUser s) ''role'' = Returned v" and "ToString v = Returned R"
    and "map_of roles R = Some r"
  shows "hasPermission P s = Returned (grants r P)"
  using assms no_empty_category_wildcard [OF assms(4)]
  by (auto simp: hasPermission_def roles_at_def grants_def)

lemma hasPermission_no_session:
  "\<not> truthy (currentUser s) \<Longrightarrow> hasPermission P s = Returned False"
  by (simp add: hasPermission_def)

text \<open>
  A role name that is neither registered nor a member every object inherits grants nothing.
\<close>

lemma hasPermission_unregistered:
  assumes "get (currentUser s) ''role'' = Returned v" and "ToString v = Returned k"
    and "roles_at k = Absent"
  shows "hasPermission P s = Returned False"
  using assms by (simp add: hasPermission_def)

lemma roles_at_constructor: "roles_at ''constructor'' = Inherited"
  by (simp add: roles_at_def roles_def Object_prototype_def)

text \<open>
  Claim C1. \<^verbatim>\<open>hasPermission(P)\<close> is to return true exactly when the role of the active
  session grants \<open>P\<close>, and false for every \<open>P\<close> when there is no session or the role is
  not registered. The first two parts hold (\<open>hasPermission_registered\<close>,
  \<open>hasPermission_no_session\<close>). The third fails for a role named like a member of
  \<^verbatim>\<open>Object.prototype\<close>: \<^verbatim>\<open>this.roles['constructor']\<close> is a function, so the test
  \<^verbatim>\<open>if (!role) return false\<close> lets it pass, \<^verbatim>\<open>role.permissions\<close> is
  \<^verbatim>\<open>undefined\<close>, and \<^verbatim>\<open>role.permissions.includes\<close> throws a TypeError: under the
  session \<^verbatim>\<open>{username: 'mallory', role: 'constructor'}\<close>, \<^verbatim>\<open>hasPermission\<close> returns
  nothing for any \<open>P\<close>.
\<close>

theorem hasPermission_inherited_role:
  "hasPermission P
     (s\<lparr>currentUser := Obj [(''username'', Str ''mallory''), (''role'', Str ''constructor'')]\<rparr>)
   = Threw TypeError"
  by (simp add: hasPermission_def field_def roles_at_constructor)

section \<open>Properties of the audit log\<close>

lemma length_slice_last: "length (slice_last n xs) \<le> n"
  by (simp add: slice_last_def)

lemma slice_last_short: "length xs \<le> n \<Longrightarrow> slice_last n xs = xs"
  by (simp add: slice_last_def)

lemma slice_last_slice_last: "slice_last n (slice_last n xs @ ys) = slice_last n (xs @ ys)"
proof (cases "length xs \<le> n")
  case True
  then show ?thesis by (simp add: slice_last_def)
next
  case False
  then have "length ys + (length xs - n) = length xs + length ys - n" by simp
  with False show ?thesis by (simp add: slice_last_def)
qed

lemma logAudit_entries:
  "entries (snd (logAudit h ev d s)) = slice_last 1000 (entries s @ [fst (logAudit h ev d s)])"
  by (simp add: logAudit_def entries_def push_def new_array_def Let_def slice_last_def)

lemma logAudit_currentUser: "currentUser (snd (logAudit h ev d s)) = currentUser s"
  by (simp add: logAudit_def push_def new_array_def Let_def)

lemma logAudit_allocated: "allocated s \<Longrightarrow> allocated (snd (logAudit h ev d s))"
  by (simp add: logAudit_def push_def new_array_def Let_def allocated_def)




lemma length_logAudit_all: "length (fst (logAudit_all calls s)) = length calls"
  by (induction calls arbitrary: s) (auto simp: split_beta Let_def)

lemma entries_logAudit_all:
  "calls \<noteq> [] \<Longrightarrow>
   entries (snd (logAudit_all calls s)) = slice_last 1000 (entries s @ fst (logAudit_all calls s))"
proof (induction calls arbitrary: s)
  case Nil
  then show ?case by simp
next
  case (Cons c calls)
  obtain h ev d where c: "c = (h, ev, d)" by (cases c)
  let ?s1 = "snd (logAudit h ev d s)"
  show ?case
  proof (cases "calls = []")
    case True
    then show ?thesis by (simp add: c split_beta logAudit_entries)
  next
    case False
    from Cons.IH [OF False, of ?s1] show ?thesis
      by (simp add: c split_beta logAudit_entries slice_last_slice_last)
  qed
qed

text \<open>
  Claim C2. Starting from an empty audit log, 1001 \<^verbatim>\<open>logAudit\<close> calls leave exactly
  1000 entries: the entries of the calls 2 to 1001, in the order of the calls; the entry of
  the first call is gone.
\<close>

theorem logAudit_fifo_eviction:
  assumes "arrays s (auditLog s) = []" and "length calls = 1001"
  shows "arrays (snd (logAudit_all calls s)) (auditLog (snd (logAudit_all calls s)))
           = tl (fst (logAudit_all calls s))
         \<and> length (arrays (snd (logAudit_all calls s)) (auditLog (snd (logAudit_all calls s))))
           = 1000"
proof -
  have ne: "calls \<noteq> []" using assms(2) by auto
  have len: "length (fst (logAudit_all calls s)) = 1001"
    using assms(2) by (simp add: length_logAudit_all)
  have "entries (snd (logAudit_all calls s)) = slice_last 1000 (fst (logAudit_all calls s))"
    using entries_logAudit_all [OF ne, of s] assms(1) by (simp add: entries_def)
  also have "\<dots> = tl (fst (logAudit_all calls s))"
    using len by (simp add: slice_last_def drop_Suc)
  finally have "entries (snd (logAudit_all calls s)) = tl (fst (logAudit_all calls s))" .
  then show ?thesis using len by (simp add: entries_def)
qed

theorem logAudit_fifo_eviction_witness:
  "arrays fresh (auditLog fresh) = [] \<and> length thousand_and_one = 1001 \<and>
   arrays (snd (logAudit_all thousand_and_one fresh))
          (auditLog (snd (logAudit_all thousand_and_one fresh)))
     = tl (fst (logAudit_all thousand_and_one fresh)) \<and>
   length (arrays (snd (logAudit_all thousand_and_one fresh))
                  (auditLog (snd (logAudit_all thousand_and_one fresh)))) = 1000"
proof -
  have a: "arrays fresh (auditLog fresh) = []" by (simp add: fresh_def)
  have b: "length thousand_and_one = 1001" by (simp add: thousand_and_one_def)
  from logAudit_fifo_eviction [OF a b] a b show ?thesis by blast
qed

section \<open>Properties of sessions\<close>


lemma logAudit_localStorage:
  "localStorage (snd (logAudit h ev d s)) =
     (localStorage s)\<lparr>fw_audit_log := Some (JSON_stringify_entries (entries (snd (logAudit h ev d s))))\<rparr>"
  by (simp add: logAudit_def push_def new_array_def Let_def entries_def)

lemma clearSession_simps:
  "currentUser (clearSession s) = Null"
  "fw_auth (localStorage (clearSession s)) = None"
  "entries (clearSession s) = entries s"
  "allocated (clearSession s) = allocated s"
  by (simp_all add: clearSession_def entries_def allocated_def)

lemma redirectToLogin_simps:
  "currentUser (redirectToLogin h m s) = currentUser s"
  "fw_auth (localStorage (redirectToLogin h m s)) = fw_auth (localStorage s)"
  "entries (redirectToLogin h m s) = entries s"
  "allocated (redirectToLogin h m s) = allocated s"
  by (simp_all add: redirectToLogin_def entries_def allocated_def)

lemma logout_simps:
  "currentUser (logout h reason s) = Null"
  "fw_auth (localStorage (logout h reason s)) = None"
  "entries (logout h reason s) =
     slice_last 1000 (entries s @ [fst (logAudit h ''user_logout'' (Obj [(''reason'', Str reason)]) s)])"
  by (simp_all add: logout_def clearSession_simps redirectToLogin_simps logAudit_entries)





subsection \<open>Persisted data that is no session\<close>




subsection \<open>Session ids\<close>

lemma digit_value_digit_char: "d < 10 \<Longrightarrow> digit_value (digit_char d) = Some d"
proof -
  assume "d < 10"
  then have "d \<in> {0, 1, 2, 3, 4, 5, 6, 7, 8, 9}" by auto
  then show ?thesis by (auto simp: digit_value_def digit_char_def)
qed

lemma digit_char_inj: "d < 10 \<Longrightarrow> e < 10 \<Longrightarrow> digit_char d = digit_char e \<Longrightarrow> d = e"
  by (metis digit_value_digit_char option.inject)

lemma digit_char_not_minus: "d < 10 \<Longrightarrow> digit_char d \<noteq> CHR ''-''"
proof -
  assume "d < 10"
  then have "d \<in> {0, 1, 2, 3, 4, 5, 6, 7, 8, 9}" by auto
  then show ?thesis by (auto simp: digit_char_def)
qed

lemma show_nat_small: "n < 10 \<Longrightarrow> show_nat n = [digit_char n]"
  by (simp add: show_nat.simps)

lemma show_nat_large: "\<not> n < 10 \<Longrightarrow> show_nat n = show_nat (n div 10) @ [digit_char (n mod 10)]"
  by (subst show_nat.simps) simp

lemma show_nat_not_Nil: "show_nat n \<noteq> []"
  by (cases "n < 10") (simp_all add: show_nat_small show_nat_large)

lemma hd_show_nat: "hd (show_nat n) \<noteq> CHR ''-''"
proof (induction n rule: show_nat.induct)
  case (1 n)
  show ?case
  proof (cases "n < 10")
    case True
    then show ?thesis by (simp add: show_nat_small digit_char_not_minus)
  next
    case False
    with 1 show ?thesis by (simp add: show_nat_large show_nat_not_Nil)
  qed
qed

lemma show_nat_inj: "show_nat n = show_nat m \<Longrightarrow> n = m"
proof (induction n arbitrary: m rule: show_nat.induct)
  case (1 n)
  show ?case
  proof (cases "n < 10")
    case n: True
    show ?thesis
    proof (cases "m < 10")
      case True
      with n "1.prems" show ?thesis by (simp add: show_nat_small digit_char_inj)
    next
      case False
      with n "1.prems" show_nat_not_Nil [of "m div 10"] show ?thesis
        by (auto simp add: show_nat_small show_nat_large)
    qed
  next
    case n: False
    show ?thesis
    proof (cases "m < 10")
      case True
      with n "1.prems" show_nat_not_Nil [of "n div 10"] show ?thesis
        by (auto simp add: show_nat_small show_nat_large)
    next
      case False
      with n "1.prems" have a: "show_nat (n div 10) = show_nat (m div 10)"
        and b: "digit_char (n mod 10) = digit_char (m mod 10)"
        by (simp_all add: show_nat_large)
      from "1.IH" [OF n a] have "n div 10 = m div 10" .
      moreover from b have "n mod 10 = m mod 10" by (simp add: digit_char_inj)
      ultimately show ?thesis by (metis div_mult_mod_eq)
    qed
  qed
qed

lemma show_int_inj: "show_int i = show_int j \<Longrightarrow> i = j"
proof -
  assume eq: "show_int i = show_int j"
  have neg: "\<And>n m. CHR ''-'' # show_nat n \<noteq> show_nat m"
    by (metis hd_show_nat list.sel(1))
  show ?thesis
  proof (cases "i < 0")
    case i: True
    show ?thesis
    proof (cases "j < 0")
      case True
      with i eq have "nat (- i) = nat (- j)" by (simp add: show_int_def show_nat_inj)
      with i True show ?thesis by simp
    next
      case False
      with i eq neg show ?thesis by (simp add: show_int_def)
    qed
  next
    case i: False
    show ?thesis
    proof (cases "j < 0")
      case True
      with i eq neg [of "nat (- j)" "nat i"] show ?thesis by (simp add: show_int_def)
    next
      case False
      with i eq have "nat i = nat j" by (simp add: show_int_def show_nat_inj)
      with i False show ?thesis by simp
    qed
  qed
qed

lemma setSession_sessionId:
  "get (currentUser (setSession h username role_arg name_arg twoFactor_arg s)) ''sessionId''
     = Returned (Str (''fw-'' @ show_int (now h)))"
  by (simp add: setSession_def Let_def logAudit_currentUser field_def)

text \<open>
  Claim C5, as stated: two \<^verbatim>\<open>setSession\<close> calls give two different session ids. It
  fails when the clock reads the same millisecond at both calls: the id is
  \<^verbatim>\<open>'fw-' + Date.now()\<close>.
\<close>

lemma show_int_example: "show_int 1767225600000 = ''1767225600000''"
  by (simp add: show_int_def show_nat.simps digit_char_def)

theorem sessionId_same_millisecond:
  "get (currentUser (setSession (browser 1767225600000)
          (Str ''alice'') (Str ''curator'') (Str ''Alice'') Undefined fresh)) ''sessionId''
     = Returned (Str ''fw-1767225600000'') \<and>
   get (currentUser (setSession (browser 1767225600000)
          (Str ''bob'') (Str ''auditor'') (Str ''Bob'') Undefined
          (setSession (browser 1767225600000)
             (Str ''alice'') (Str ''curator'') (Str ''Alice'') Undefined fresh))) ''sessionId''
     = Returned (Str ''fw-1767225600000'')"
  by (simp add: setSession_sessionId browser_def show_int_example)

text \<open>
  Claim C5, amended: the session ids of two \<^verbatim>\<open>setSession\<close> calls are equal exactly
  when \<^verbatim>\<open>Date.now()\<close> is the same at both; calls at different clock readings give
  different ids.
\<close>

theorem sessionId_distinct_iff:
  "(get (currentUser (setSession h1 u1 r1 n1 f1 s1)) ''sessionId''
      = get (currentUser (setSession h2 u2 r2 n2 f2 s2)) ''sessionId'')
   = (now h1 = now h2)"
  by (auto simp: setSession_sessionId dest: show_int_inj)

section \<open>Properties of queries and exports\<close>

lemma extends_refl: "extends s s"
  by (simp add: extends_def)

lemma fresh_new_array: "extends s s' \<Longrightarrow> fresh_array s (new_array es s')"
  by (simp add: fresh_array_def extends_def new_array_def)

lemma fresh_filter_logs: "fresh_array s ls \<Longrightarrow> fresh_array s (filter_logs f ls)"
  by (simp add: fresh_array_def extends_def filter_logs_def new_array_def)

lemma extends_sort_in_place: "fresh_array s ls \<Longrightarrow> extends s (sort_in_place cmp (fst ls) (snd ls))"
  by (simp add: fresh_array_def extends_def sort_in_place_def)

lemma fresh_by_userId: "fresh_array s ls \<Longrightarrow> fresh_array s (by_userId filters ls)"
  by (simp add: by_userId_def fresh_filter_logs)

lemma fresh_by_event: "fresh_array s ls \<Longrightarrow> fresh_array s (by_event filters ls)"
  by (simp add: by_event_def fresh_filter_logs)

lemma fresh_by_startDate:
  "fresh_array s ls \<Longrightarrow> by_startDate h filters ls = Returned ls' \<Longrightarrow> fresh_array s ls'"
  by (auto simp: by_startDate_def fresh_filter_logs split: if_splits outcome.splits)

lemma fresh_by_endDate:
  "fresh_array s ls \<Longrightarrow> by_endDate h filters ls = Returned ls' \<Longrightarrow> fresh_array s ls'"
  by (auto simp: by_endDate_def fresh_filter_logs split: if_splits outcome.splits)

lemma getAuditLog_extends: "extends s (snd (getAuditLog h filters s))"
proof -
  let ?ls2 = "by_event filters (by_userId filters (new_array (arrays s (auditLog s)) s))"
  have f2: "fresh_array s ?ls2"
    by (intro fresh_by_event fresh_by_userId fresh_new_array extends_refl)
  show ?thesis
  proof (cases "by_startDate h filters ?ls2")
    case (Threw e)
    with f2 show ?thesis by (simp add: getAuditLog_def fresh_array_def)
  next
    case s3: (Returned ls3)
    have f3: "fresh_array s ls3" by (rule fresh_by_startDate [OF f2 s3])
    show ?thesis
    proof (cases "by_endDate h filters ls3")
      case (Threw e)
      with s3 f3 show ?thesis by (simp add: getAuditLog_def fresh_array_def)
    next
      case s4: (Returned ls4)
      have "fresh_array s ls4" by (rule fresh_by_endDate [OF f3 s4])
      then have "extends s (sort_in_place (newest_first h) (fst ls4) (snd ls4))"
        by (rule extends_sort_in_place)
      with s3 s4 show ?thesis by (simp add: getAuditLog_def)
    qed
  qed
qed

lemma getAuditLog_entries:
  "allocated s \<Longrightarrow> entries (snd (getAuditLog h filters s)) = entries s"
  using getAuditLog_extends [of s h filters] by (simp add: extends_def entries_def allocated_def)

lemma getAuditLog_allocated:
  "allocated s \<Longrightarrow> allocated (snd (getAuditLog h filters s))"
  using getAuditLog_extends [of s h filters] by (simp add: extends_def allocated_def)

lemma getAuditLog_no_filter:
  "getAuditLog h [] s =
     (Returned (next_ref s),
      s\<lparr>arrays := (arrays s)(next_ref s := sort_by (newest_first h) (arrays s (auditLog s))),
        next_ref := Suc (next_ref s)\<rparr>)"
  by (simp add: getAuditLog_def by_userId_def by_event_def by_startDate_def by_endDate_def
      field_def new_array_def sort_in_place_def)







subsection \<open>Export\<close>
























section \<open>The bound of the audit log\<close>

lemma appends_none: "entries s' = entries s \<Longrightarrow> appends s [] s'"
  by (simp add: appends_def)

lemma appends_logAudit:
  "entries s1 = entries s \<Longrightarrow> appends s [fst (logAudit h ev d s1)] (snd (logAudit h ev d s1))"
  by (simp add: appends_def logAudit_entries)

lemma appends_trans:
  "appends s es s1 \<Longrightarrow> appends s1 [e] s2 \<Longrightarrow> appends s (es @ [e]) s2"
  by (auto simp: appends_def slice_last_slice_last)

lemma appends_frame:
  "entries s2 = entries s1 \<Longrightarrow> appends s es s1 \<Longrightarrow> appends s es s2"
  by (simp add: appends_def)

lemma allocated_update:
  "allocated (s\<lparr>currentUser := u\<rparr>) = allocated s"
  "allocated (s\<lparr>localStorage := l\<rparr>) = allocated s"
  "allocated (s\<lparr>navigation := n\<rparr>) = allocated s"
  by (simp_all add: allocated_def)

lemma entries_update:
  "entries (s\<lparr>currentUser := u\<rparr>) = entries s"
  "entries (s\<lparr>localStorage := l\<rparr>) = entries s"
  "entries (s\<lparr>navigation := n\<rparr>) = entries s"
  by (simp_all add: entries_def)

lemma appends_logAudit_ex:
  "entries s1 = entries s \<Longrightarrow> \<exists>e. appends s [e] (snd (logAudit h ev d s1))"
  using appends_logAudit by blast

lemma setSession_appends: "\<exists>e. appends s [e] (setSession h u r n f s)"
  unfolding setSession_def Let_def
  by (rule appends_logAudit_ex) (simp add: entries_update)

lemma setSession_allocated: "allocated s \<Longrightarrow> allocated (setSession h u r n f s)"
  unfolding setSession_def Let_def
  by (intro logAudit_allocated) (simp add: allocated_update)

lemma logout_appends: "\<exists>e. appends s [e] (logout h reason s)"
  by (auto simp: appends_def logout_simps)

lemma logout_allocated: "allocated s \<Longrightarrow> allocated (logout h reason s)"
  by (simp add: logout_def clearSession_simps redirectToLogin_simps logAudit_allocated)

lemma exportAuditLog_appends:
  assumes "allocated s"
  shows "\<exists>es. length es \<le> 1 \<and> appends s es (snd (exportAuditLog h format s))"
proof -
  let ?s1 = "snd (getAuditLog h [] s)"
  have e1: "entries ?s1 = entries s" by (rule getAuditLog_entries [OF assms])
  have "snd (exportAuditLog h format s) = ?s1 \<or>
        (\<exists>d. snd (exportAuditLog h format s) = snd (logAudit h ''audit_log_exported'' d ?s1))"
    by (auto simp: exportAuditLog_def getAuditLog_no_filter Let_def split: outcome.splits)
  then show ?thesis
  proof
    assume "snd (exportAuditLog h format s) = ?s1"
    then have "appends s [] (snd (exportAuditLog h format s))" using e1 by (simp add: appends_def)
    then show ?thesis by (intro exI [of _ "[]"]) simp
  next
    assume "\<exists>d. snd (exportAuditLog h format s) = snd (logAudit h ''audit_log_exported'' d ?s1)"
    then obtain d where "snd (exportAuditLog h format s) = snd (logAudit h ''audit_log_exported'' d ?s1)"
      by blast
    then have "appends s [fst (logAudit h ''audit_log_exported'' d ?s1)] (snd (exportAuditLog h format s))"
      using appends_logAudit [OF e1] by simp
    then show ?thesis by (intro exI [of _ "[fst (logAudit h ''audit_log_exported'' d ?s1)]"]) simp
  qed
qed

lemma exportAuditLog_allocated:
  assumes "allocated s"
  shows "allocated (snd (exportAuditLog h format s))"
proof -
  let ?s1 = "snd (getAuditLog h [] s)"
  have a1: "allocated ?s1" by (rule getAuditLog_allocated [OF assms])
  have "snd (exportAuditLog h format s) = ?s1 \<or>
        (\<exists>d. snd (exportAuditLog h format s) = snd (logAudit h ''audit_log_exported'' d ?s1))"
    by (auto simp: exportAuditLog_def getAuditLog_no_filter Let_def split: outcome.splits)
  with a1 show ?thesis by (auto simp: logAudit_allocated)
qed

lemma loadSession_cases:
  "loadSession h s = s \<or> loadSession h s = clearSession s \<or>
   (\<exists>v. loadSession h s = clearSession (s\<lparr>currentUser := v\<rparr>)) \<or>
   (\<exists>v d. loadSession h s = snd (logAudit h ''session_loaded'' d (s\<lparr>currentUser := v\<rparr>))) \<or>
   (\<exists>v d. loadSession h s = clearSession (snd (logAudit h ''session_loaded'' d (s\<lparr>currentUser := v\<rparr>)))) \<or>
   (\<exists>v d. loadSession h s =
      logout h ''Session expired'' (snd (logAudit h ''session_loaded'' d (s\<lparr>currentUser := v\<rparr>))))"
  unfolding loadSession_def Let_def
  by (simp split: outcome.split option.split) blast

lemma loadSession_appends:
  "\<exists>es. length es \<le> 2 \<and> appends s es (loadSession h s)"
proof -
  have frame: "\<And>v. entries (s\<lparr>currentUser := v\<rparr>) = entries s" by (simp add: entries_update)
  from loadSession_cases [of h s] show ?thesis
  proof (elim disjE exE)
    assume "loadSession h s = s"
    then have "appends s [] (loadSession h s)" by (simp add: appends_def)
    then show ?thesis by (intro exI [of _ "[]"]) simp
  next
    assume "loadSession h s = clearSession s"
    then have "appends s [] (loadSession h s)" by (simp add: appends_def clearSession_simps)
    then show ?thesis by (intro exI [of _ "[]"]) simp
  next
    fix v assume "loadSession h s = clearSession (s\<lparr>currentUser := v\<rparr>)"
    then have "appends s [] (loadSession h s)"
      by (simp add: appends_def clearSession_simps entries_update)
    then show ?thesis by (intro exI [of _ "[]"]) simp
  next
    fix v d
    assume "loadSession h s = snd (logAudit h ''session_loaded'' d (s\<lparr>currentUser := v\<rparr>))"
    then have "appends s [fst (logAudit h ''session_loaded'' d (s\<lparr>currentUser := v\<rparr>))] (loadSession h s)"
      using appends_logAudit [OF frame] by simp
    then show ?thesis
      by (intro exI [of _ "[fst (logAudit h ''session_loaded'' d (s\<lparr>currentUser := v\<rparr>))]"]) simp
  next
    fix v d
    assume "loadSession h s = clearSession (snd (logAudit h ''session_loaded'' d (s\<lparr>currentUser := v\<rparr>)))"
    then have "appends s [fst (logAudit h ''session_loaded'' d (s\<lparr>currentUser := v\<rparr>))] (loadSession h s)"
      using appends_logAudit [OF frame, of h "''session_loaded''" d v]
      by (simp add: appends_def clearSession_simps)
    then show ?thesis
      by (intro exI [of _ "[fst (logAudit h ''session_loaded'' d (s\<lparr>currentUser := v\<rparr>))]"]) simp
  next
    fix v d
    let ?s2 = "snd (logAudit h ''session_loaded'' d (s\<lparr>currentUser := v\<rparr>))"
    let ?e1 = "fst (logAudit h ''session_loaded'' d (s\<lparr>currentUser := v\<rparr>))"
    assume eq: "loadSession h s = logout h ''Session expired'' ?s2"
    have one: "appends s [?e1] ?s2" using appends_logAudit [OF frame] by simp
    obtain e2 where "appends ?s2 [e2] (logout h ''Session expired'' ?s2)"
      using logout_appends by blast
    from appends_trans [OF one this] have "appends s [?e1, e2] (loadSession h s)"
      by (simp add: eq)
    then show ?thesis by (intro exI [of _ "[?e1, e2]"]) simp
  qed
qed

lemma loadSession_allocated: "allocated s \<Longrightarrow> allocated (loadSession h s)"
  using loadSession_cases [of h s]
  by (auto simp: clearSession_simps allocated_update logout_allocated logAudit_allocated)

lemma perform_appends:
  assumes "allocated s"
  shows "\<exists>es. length es \<le> 2 \<and> appends s es (perform h op s)"
proof (cases op)
  case (LogAudit ev d)
  have "appends s [fst (logAudit h ev d s)] (perform h op s)"
    using appends_logAudit [of s s h ev d] by (simp add: LogAudit)
  then show ?thesis by (intro exI [of _ "[fst (logAudit h ev d s)]"]) simp
next
  case (GetAuditLog filters)
  have "appends s [] (perform h op s)"
    by (simp add: GetAuditLog appends_def getAuditLog_entries [OF assms])
  then show ?thesis by (intro exI [of _ "[]"]) simp
next
  case (ExportAuditLog format)
  from exportAuditLog_appends [OF assms, of h format] obtain es
    where "length es \<le> 1" "appends s es (snd (exportAuditLog h format s))" by blast
  then show ?thesis by (intro exI [of _ es]) (simp add: ExportAuditLog)
next
  case (SetSession u r n f)
  from setSession_appends [of s h u r n f] obtain e where "appends s [e] (setSession h u r n f s)"
    by blast
  then show ?thesis by (intro exI [of _ "[e]"]) (simp add: SetSession)
next
  case LoadSession
  then show ?thesis using loadSession_appends [of s h] by simp
next
  case (Logout reason)
  from logout_appends [of s h reason] obtain e where "appends s [e] (logout h reason s)" by blast
  then show ?thesis by (intro exI [of _ "[e]"]) (simp add: Logout)
next
  case ClearSession
  have "appends s [] (perform h op s)" by (simp add: ClearSession appends_def clearSession_simps)
  then show ?thesis by (intro exI [of _ "[]"]) simp
qed

lemma perform_allocated: "allocated s \<Longrightarrow> allocated (perform h op s)"
  by (cases op)
    (simp_all add: logAudit_allocated getAuditLog_allocated exportAuditLog_allocated
      setSession_allocated loadSession_allocated logout_allocated clearSession_simps)

lemma appends_bounded:
  "appends s es s' \<Longrightarrow> length (entries s) \<le> 1000 \<Longrightarrow> length (entries s') \<le> 1000"
  by (auto simp: appends_def length_slice_last)

lemma perform_bounded:
  "allocated s \<Longrightarrow> length (entries s) \<le> 1000 \<Longrightarrow> length (entries (perform h op s)) \<le> 1000"
  using perform_appends [of s h op] appends_bounded by blast

lemma perform_all_invariant:
  "allocated s \<Longrightarrow> length (entries s) \<le> 1000 \<Longrightarrow>
   allocated (perform_all ops s) \<and> length (entries (perform_all ops s)) \<le> 1000"
proof (induction ops arbitrary: s)
  case Nil
  then show ?case by simp
next
  case (Cons x ops)
  obtain h op where x: "x = (h, op)" by (cases x)
  from Cons.prems have "allocated (perform h op s)" "length (entries (perform h op s)) \<le> 1000"
    by (simp_all add: perform_allocated perform_bounded)
  from Cons.IH [OF this] show ?case by (simp add: x)
qed

lemma protect_audit_cases:
  "snd (protect_audit h s) = s \<or> (\<exists>m. snd (protect_audit h s) = redirectToLogin h m s)"
  unfolding protect_audit_def
  by (simp split: outcome.split bool.split) blast

lemma protectRoutes_cases:
  "snd (protectRoutes h s) = s \<or> (\<exists>m. snd (protectRoutes h s) = redirectToLogin h m s)"
proof (cases "\<exists>m. snd (protectRoutes h s) = redirectToLogin h m s")
  case True
  then show ?thesis by blast
next
  case False
  then have "snd (protectRoutes h s) = s \<or> snd (protectRoutes h s) = snd (protect_audit h s)"
    unfolding protectRoutes_def Let_def
    by (auto split: outcome.splits bool.splits if_splits)
  with False protect_audit_cases [of h s] show ?thesis by auto
qed

lemma protectRoutes_frame:
  "entries (snd (protectRoutes h s)) = entries s"
  "allocated (snd (protectRoutes h s)) = allocated s"
  using protectRoutes_cases [of h s] by (auto simp: redirectToLogin_simps)

lemma constructor_eq: "constructor h st = protectRoutes h (loadSession h (initial st))"
  by (simp add: constructor_def initial_def)

lemma initial_simps:
  "allocated (initial st)" "entries (initial st) = loadStoredAuditLog st"
  "fw_auth (localStorage (initial st)) = fw_auth st"
  by (simp_all add: initial_def allocated_def entries_def)

lemma constructor_allocated: "allocated (snd (constructor h st))"
  by (simp add: constructor_eq protectRoutes_frame loadSession_allocated initial_simps)

lemma constructor_appends:
  "\<exists>es. length es \<le> 2 \<and>
     entries (snd (constructor h st)) =
       (if es = [] then loadStoredAuditLog st else slice_last 1000 (loadStoredAuditLog st @ es))"
proof -
  from loadSession_appends [of "initial st" h] obtain es
    where "length es \<le> 2" and "appends (initial st) es (loadSession h (initial st))" by blast
  then have "length es \<le> 2 \<and>
     entries (snd (constructor h st)) =
       (if es = [] then loadStoredAuditLog st else slice_last 1000 (loadStoredAuditLog st @ es))"
    by (simp add: constructor_eq protectRoutes_frame appends_def initial_simps)
  then show ?thesis by blast
qed

lemma constructor_no_session:
  "\<not> present (fw_auth st) \<Longrightarrow> entries (snd (constructor h st)) = loadStoredAuditLog st"
  by (simp add: constructor_eq protectRoutes_frame loadSession_def initial_simps)

lemma loadStoredAuditLog_long:
  "loadStoredAuditLog long_storage = fst (logAudit_all thousand_and_one fresh)"
  by (simp add: loadStoredAuditLog_def long_storage_def)

lemma protectRoutes_index: "fst (protectRoutes (browser t) s) = Returned ()"
  by (simp add: protectRoutes_def protect_audit_def browser_def endsWith_def includes_str_def)

text \<open>
  Claim C3, as stated: the log never holds more than 1000 entries in a reachable state,
  the state after initialization with a persisted log of any length included. It fails
  there: \<^verbatim>\<open>loadStoredAuditLog\<close> returns the parsed array as it is, and with no persisted
  session nothing is appended, so a persisted log of 1001 entries is the log after
  construction.
\<close>

theorem constructor_keeps_long_log:
  "fst (constructor (browser 0) long_storage) = Returned () \<and>
   length (arrays (snd (constructor (browser 0) long_storage))
                  (auditLog (snd (constructor (browser 0) long_storage)))) = 1001"
proof -
  have "\<not> present (fw_auth long_storage)" by (simp add: long_storage_def empty_storage_def)
  then have "entries (snd (constructor (browser 0) long_storage))
               = fst (logAudit_all thousand_and_one fresh)"
    by (simp add: constructor_no_session loadStoredAuditLog_long)
  then have "length (entries (snd (constructor (browser 0) long_storage))) = 1001"
    by (simp add: length_logAudit_all thousand_and_one_def)
  then show ?thesis by (simp add: entries_def constructor_eq protectRoutes_index)
qed

text \<open>
  Claim C3, amended: when the persisted log holds at most 1000 entries, the log holds at
  most 1000 entries after initialization and after every run of \<^verbatim>\<open>logAudit\<close>,
  \<^verbatim>\<open>getAuditLog\<close>, \<^verbatim>\<open>exportAuditLog\<close>, \<^verbatim>\<open>setSession\<close>, \<^verbatim>\<open>loadSession\<close>,
  \<^verbatim>\<open>logout\<close> and \<^verbatim>\<open>clearSession\<close>; each operation leaves the log as it was or
  appends one or two entries and keeps the newest 1000, so what is cut off is the oldest
  entries. Initialization does not truncate: the log after it is the persisted log as it
  is, or the newest 1000 of it and the one or two entries \<^verbatim>\<open>loadSession\<close> appended.
\<close>

theorem audit_log_bound:
  assumes "length (loadStoredAuditLog st) \<le> 1000"
    and "s = perform_all ops (snd (constructor h st))"
  shows "length (arrays s (auditLog s)) \<le> 1000 \<and>
         (\<exists>es. length es \<le> 2 \<and>
            arrays (perform h' op s) (auditLog (perform h' op s)) =
              (if es = [] then arrays s (auditLog s)
               else slice_last 1000 (arrays s (auditLog s) @ es))) \<and>
         (\<exists>es. length es \<le> 2 \<and>
            arrays (snd (constructor h st)) (auditLog (snd (constructor h st))) =
              (if es = [] then loadStoredAuditLog st
               else slice_last 1000 (loadStoredAuditLog st @ es)))"
proof -
  let ?s0 = "snd (constructor h st)"
  have a0: "allocated ?s0" by (rule constructor_allocated)
  from constructor_appends [of h st] obtain es0 where es0: "length es0 \<le> 2"
    "entries ?s0 = (if es0 = [] then loadStoredAuditLog st
                    else slice_last 1000 (loadStoredAuditLog st @ es0))"
    by blast
  then have b0: "length (entries ?s0) \<le> 1000"
    using assms(1) by (auto simp: length_slice_last)
  from perform_all_invariant [OF a0 b0, of ops]
  have inv: "allocated s" "length (entries s) \<le> 1000" by (simp_all add: assms(2))
  from perform_appends [OF inv(1), of h' op] obtain es where "length es \<le> 2"
    "appends s es (perform h' op s)" by blast
  then have step: "\<exists>es. length es \<le> 2 \<and>
            arrays (perform h' op s) (auditLog (perform h' op s)) =
              (if es = [] then arrays s (auditLog s)
               else slice_last 1000 (arrays s (auditLog s) @ es))"
    unfolding appends_def entries_def by blast
  from es0 have init: "\<exists>es. length es \<le> 2 \<and>
            arrays (snd (constructor h st)) (auditLog (snd (constructor h st))) =
              (if es = [] then loadStoredAuditLog st
               else slice_last 1000 (loadStoredAuditLog st @ es))"
    unfolding entries_def by blast
  from inv(2) step init show ?thesis unfolding entries_def by blast
qed

theorem audit_log_bound_witness:
  "length (loadStoredAuditLog empty_storage) \<le> 1000 \<and>
   length (arrays (perform_all a_visit (snd (constructor (browser 1767225500000) empty_storage)))
                  (auditLog (perform_all a_visit (snd (constructor (browser 1767225500000) empty_storage)))))
     \<le> 1000"
proof -
  have a: "length (loadStoredAuditLog empty_storage) \<le> 1000"
    by (simp add: loadStoredAuditLog_def empty_storage_def)
  from audit_log_bound [OF a refl, of a_visit "browser 1767225500000"] a show ?thesis by blast
qed

section \<open>The CSV export\<close>






















subsection \<open>Reading the payload back\<close>







































subsection \<open>The sample pages\<close>














subsection \<open>The export\<close>




end
